theory Spec2Isabelle
  imports Complex_Main
begin

section \<open>SMILES tokenizer (notebooks/code/data\_preparation.py)\<close>

text \<open>
  Strings are \<open>string\<close> (lists of 8-bit characters); a token is a string. The three
  compiled patterns of \<open>SMILESTokenizer.REGEXPS\<close> are the constructors of \<open>regexp\<close>:
  \<^item> \<open>Brackets\<close> is \<^verbatim>\<open>(\[[^\]]*\])\<close>,
  \<^item> \<open>Two_ring_nums\<close> is \<^verbatim>\<open>(%\d{2})\<close>,
  \<^item> \<open>Brcl\<close> is \<^verbatim>\<open>(Br|Cl)\<close>.
  Each pattern is one capturing group, so \<open>regexp.split\<close> returns the pieces between
  the matches at the even positions and the matched texts at the odd positions.
\<close>

datatype regexp = Brackets | Two_ring_nums | Brcl

definition REGEXP_ORDER :: "regexp list" where
  "REGEXP_ORDER = [Brackets, Two_ring_nums, Brcl]"

text \<open>The class \<^verbatim>\<open>\d\<close>: among the 8-bit characters the decimal digits are 0 to 9.\<close>

definition is_digit :: "char \<Rightarrow> bool" where
  "is_digit c = (c \<in> set ''0123456789'')"

text \<open>
  \<open>match_at r s\<close> is the match of pattern \<open>r\<close> anchored at the start of \<open>s\<close>:
  the matched text and the text after it, or \<open>None\<close>. For \<open>Brackets\<close> the class
  \<^verbatim>\<open>[^\]]*\<close> takes every character up to the next \<^verbatim>\<open>]\<close>, which must exist.
\<close>

fun match_at :: "regexp \<Rightarrow> string \<Rightarrow> (string \<times> string) option" where
  "match_at Brackets (c # cs) =
     (if c = CHR ''[''
      then (case dropWhile (\<lambda>x. x \<noteq> CHR '']'') cs of
              [] \<Rightarrow> None
            | d # post \<Rightarrow> Some (c # takeWhile (\<lambda>x. x \<noteq> CHR '']'') cs @ [d], post))
      else None)"
| "match_at Two_ring_nums (c # d1 # d2 # post) =
     (if c = CHR ''%'' \<and> is_digit d1 \<and> is_digit d2 then Some ([c, d1, d2], post) else None)"
| "match_at Brcl (c1 # c2 # post) =
     (if [c1, c2] = ''Br'' \<or> [c1, c2] = ''Cl'' then Some ([c1, c2], post) else None)"
| "match_at _ _ = None"

text \<open>
  \<open>re_search r s\<close> is the leftmost match of \<open>r\<close> in \<open>s\<close>: the text before it, the
  match, and the text after it.
\<close>

fun re_search :: "regexp \<Rightarrow> string \<Rightarrow> (string \<times> string \<times> string) option" where
  "re_search r [] = None"
| "re_search r (c # cs) =
     (case match_at r (c # cs) of
        Some (m, post) \<Rightarrow> Some ([], m, post)
      | None \<Rightarrow> (case re_search r cs of
                   None \<Rightarrow> None
                 | Some (pre, m, post) \<Rightarrow> Some (c # pre, m, post)))"

lemma match_at_shorter: "match_at r s = Some (m, post) \<Longrightarrow> length post < length s"
proof (induction r s rule: match_at.induct)
  case (1 c cs)
  then obtain d where d: "dropWhile (\<lambda>x. x \<noteq> CHR '']'') cs = d # post"
    by (auto split: if_splits list.splits)
  have "length (dropWhile (\<lambda>x. x \<noteq> CHR '']'') cs) \<le> length cs"
    by (rule length_dropWhile_le)
  with d show ?case by simp
qed (auto split: if_splits)

lemma re_search_shorter: "re_search r s = Some (pre, m, post) \<Longrightarrow> length post < length s"
proof (induction s arbitrary: pre)
  case Nil
  then show ?case by simp
next
  case (Cons c cs)
  show ?case
  proof (cases "match_at r (c # cs)")
    case None
    with Cons show ?thesis
      by (fastforce split: option.splits)
  next
    case (Some a)
    with Cons.prems match_at_shorter [of r "c # cs"] show ?thesis
      by (cases a) auto
  qed
qed

text \<open>\<open>re_split r s\<close> is \<open>regexp.split(smiles)\<close>.\<close>

function re_split :: "regexp \<Rightarrow> string \<Rightarrow> string list" where
  "re_split r s =
     (case re_search r s of
        None \<Rightarrow> [s]
      | Some (pre, m, post) \<Rightarrow> pre # m # re_split r post)"
  by pat_completeness auto
termination
  by (relation "measure (\<lambda>(r, s). length s)") (auto dest: re_search_shorter)

declare re_split.simps [simp del]

text \<open>
  The body of \<open>split_by\<close>: the loop over \<open>enumerate(splitted)\<close>, with the index \<open>i\<close>
  and the list \<open>tokens\<close> built so far; \<open>f\<close> is the recursive call on the remaining
  patterns.
\<close>

fun split_loop :: "(string \<Rightarrow> string list) \<Rightarrow> nat \<Rightarrow> string list \<Rightarrow> string list \<Rightarrow> string list" where
  "split_loop f i [] tokens = tokens"
| "split_loop f i (split # splitted) tokens =
     split_loop f (i + 1) splitted
       (if i mod 2 = 0 then tokens @ f split else tokens @ [split])"

fun split_by :: "string \<Rightarrow> regexp list \<Rightarrow> string list" where
  "split_by smiles [] = map (\<lambda>c. [c]) smiles"
| "split_by smiles (regexp # regexps) =
     split_loop (\<lambda>split. split_by split regexps) 0 (re_split regexp smiles) []"

definition tokenize :: "string \<Rightarrow> bool \<Rightarrow> string list" where
  "tokenize smiles with_begin_and_end =
     (let tokens = split_by smiles REGEXP_ORDER
      in if with_begin_and_end then [''^''] @ tokens @ [''$''] else tokens)"

text \<open>
  \<open>untokenize\<close>: the loop over the tokens with the string \<open>smi\<close> built so far; the
  \<open>break\<close> at the first \<open>$\<close> returns it.
\<close>

fun untokenize_loop :: "string list \<Rightarrow> string \<Rightarrow> string" where
  "untokenize_loop [] smi = smi"
| "untokenize_loop (token # tokens) smi =
     (if token = ''$'' then smi
      else if token \<noteq> ''^'' then untokenize_loop tokens (smi @ token)
      else untokenize_loop tokens smi)"

definition untokenize :: "string list \<Rightarrow> string" where
  "untokenize tokens = untokenize_loop tokens ''''"

section \<open>Score transformations (notebooks/code/score\_transformation\_code.py)\<close>

text \<open>
  What is modelled of Python's arithmetic is what it raises and where it leaves the
  finite range: a missing key is \<open>KeyError\<close>, arithmetic or comparison between a number
  and a string is \<open>TypeError\<close>, a division by zero is \<open>ZeroDivisionError\<close>, a float
  power out of range is \<open>OverflowError\<close>, and every other operation returns a float,
  possibly an infinity or nan. The rounding of finite results and the sign of zero are not
  modelled, and the conversion to \<open>float32\<close> by \<open>np.array\<close> is the identity.
\<close>

text \<open>
  A value computed by the formulas is a Python float: a finite number, one of the two
  infinities, or nan. The results 0 and 1 of the formulas are the finite values 0 and 1.
\<close>

datatype pyfloat = Finite real | PInf | NInf | NaN

instantiation pyfloat :: "{zero, one}"
begin

definition zero_pyfloat :: pyfloat where
  "zero_pyfloat = Finite 0"

definition one_pyfloat :: pyfloat where
  "one_pyfloat = Finite 1"

instance ..

end

text \<open>
  A value of the parameter dictionary is a number or a string; the numbers of the
  dictionary and the scores are finite floats, written as reals.
\<close>

datatype pyval = Num real | Str string

datatype error = KeyError | TypeError | ZeroDivisionError | OverflowError

type_synonym parameters = "string \<rightharpoonup> pyval"

type_synonym transformation_function = "real list \<Rightarrow> parameters \<Rightarrow> error + pyfloat list"

text \<open>
  Sequencing: the first exception ends the evaluation.
\<close>

fun bind_err :: "error + 'a \<Rightarrow> ('a \<Rightarrow> error + 'b) \<Rightarrow> error + 'b" where
  "bind_err (Inl e) f = Inl e"
| "bind_err (Inr x) f = f x"

text \<open>
  A list comprehension whose element expression may raise.
\<close>

fun map_err :: "('a \<Rightarrow> error + 'b) \<Rightarrow> 'a list \<Rightarrow> error + 'b list" where
  "map_err f [] = Inr []"
| "map_err f (x # xs) = bind_err (f x) (\<lambda>y. bind_err (map_err f xs) (\<lambda>ys. Inr (y # ys)))"

text \<open>
  \<open>d[key]\<close> on a dictionary.
\<close>

definition getitem :: "('k \<rightharpoonup> 'v) \<Rightarrow> 'k \<Rightarrow> error + 'v" where
  "getitem d key = (case d key of None \<Rightarrow> Inl KeyError | Some v \<Rightarrow> Inr v)"

text \<open>
  The operand of an arithmetic operation or a comparison whose other operand is a float:
  a string there raises \<open>TypeError\<close>.
\<close>

fun num :: "pyval \<Rightarrow> error + real" where
  "num (Num x) = Inr x"
| "num (Str s) = Inl TypeError"

text \<open>
  The range of the doubles: \<open>float_max\<close> is the largest finite double and
  \<open>float_tiny\<close> is half the smallest positive one. \<open>fl r\<close> is the float that an
  operation returns for the exact result \<open>r\<close>: an infinity beyond \<open>float_max\<close>,
  zero at or below \<open>float_tiny\<close>, and \<open>r\<close> itself, unrounded, otherwise.
\<close>

definition float_max :: real where
  "float_max = (2 ^ 53 - 1) * 2 ^ 971"

definition float_tiny :: real where
  "float_tiny = 1 / 2 ^ 1075"

definition fl :: "real \<Rightarrow> pyfloat" where
  "fl r =
     (if float_max < r then PInf
      else if r < - float_max then NInf
      else if \<bar>r\<bar> \<le> float_tiny then Finite 0
      else Finite r)"

text \<open>
  Float addition, negation, subtraction and multiplication: none of them raises;
  infinities and nan propagate as IEEE 754 prescribes
  (\<open>inf - inf\<close> and \<open>0 * inf\<close> are nan).
\<close>

fun sign_of :: "pyfloat \<Rightarrow> real" where
  "sign_of (Finite x) = sgn x"
| "sign_of PInf = 1"
| "sign_of NInf = - 1"
| "sign_of NaN = 0"

definition signed_inf :: "real \<Rightarrow> pyfloat" where
  "signed_inf s = (if s = 0 then NaN else if 0 < s then PInf else NInf)"

fun py_add :: "pyfloat \<Rightarrow> pyfloat \<Rightarrow> pyfloat" where
  "py_add (Finite x) (Finite y) = fl (x + y)"
| "py_add NaN b = NaN"
| "py_add a NaN = NaN"
| "py_add PInf NInf = NaN"
| "py_add NInf PInf = NaN"
| "py_add PInf b = PInf"
| "py_add a PInf = PInf"
| "py_add NInf b = NInf"
| "py_add a NInf = NInf"

fun py_neg :: "pyfloat \<Rightarrow> pyfloat" where
  "py_neg (Finite x) = Finite (- x)"
| "py_neg PInf = NInf"
| "py_neg NInf = PInf"
| "py_neg NaN = NaN"

definition py_sub :: "pyfloat \<Rightarrow> pyfloat \<Rightarrow> pyfloat" where
  "py_sub a b = py_add a (py_neg b)"

fun py_mul :: "pyfloat \<Rightarrow> pyfloat \<Rightarrow> pyfloat" where
  "py_mul (Finite x) (Finite y) = fl (x * y)"
| "py_mul NaN b = NaN"
| "py_mul a NaN = NaN"
| "py_mul a b = signed_inf (sign_of a * sign_of b)"

text \<open>
  \<open>a / b\<close>: a divisor equal to zero raises \<open>ZeroDivisionError\<close> whatever the
  dividend is; \<open>inf / inf\<close> is nan and a finite value divided by an infinity is zero.
\<close>

fun truediv :: "pyfloat \<Rightarrow> pyfloat \<Rightarrow> error + pyfloat" where
  "truediv a (Finite y) =
     (if y = 0 then Inl ZeroDivisionError
      else (case a of
              Finite x \<Rightarrow> Inr (fl (x / y))
            | NaN \<Rightarrow> Inr NaN
            | _ \<Rightarrow> Inr (signed_inf (sign_of a * sgn y))))"
| "truediv NaN b = Inr NaN"
| "truediv a NaN = Inr NaN"
| "truediv (Finite x) b = Inr (Finite 0)"
| "truediv a b = Inr NaN"

text \<open>
  \<open>10 ** x\<close> and \<open>math.pow(10, x)\<close>: a finite exponent for which the power is out
  of range raises \<open>OverflowError\<close>, a power that is too small is 0.0, and for an infinite
  exponent or nan the result is \<open>inf\<close>, 0.0 or nan, without an exception. Which finite
  exponents overflow is the predicate \<open>ovf\<close>; \<open>float_pow_overflows\<close> is the
  instance for doubles, up to the rounding at the boundary.
\<close>

fun pow10 :: "(real \<Rightarrow> bool) \<Rightarrow> pyfloat \<Rightarrow> error + pyfloat" where
  "pow10 ovf (Finite x) = (if ovf x then Inl OverflowError else Inr (fl (10 powr x)))"
| "pow10 ovf PInf = Inr PInf"
| "pow10 ovf NInf = Inr (Finite 0)"
| "pow10 ovf NaN = Inr NaN"

definition float_pow_overflows :: "real \<Rightarrow> bool" where
  "float_pow_overflows x = (float_max < 10 powr x)"


text \<open>
  The names of \<open>ComponentSpecificParametersEnum\<close> and \<open>TransformationTypeEnum\<close>.
\<close>

definition LOW :: string where "LOW = ''low''"
definition HIGH :: string where "HIGH = ''high''"
definition K :: string where "K = ''k''"
definition COEF_DIV :: string where "COEF_DIV = ''coef_div''"
definition COEF_SI :: string where "COEF_SI = ''coef_si''"
definition COEF_SE :: string where "COEF_SE = ''coef_se''"
definition TRANSFORMATION_TYPE :: string where "TRANSFORMATION_TYPE = ''transformation_type''"

definition DOUBLE_SIGMOID :: string where "DOUBLE_SIGMOID = ''double_sigmoid''"
definition SIGMOID :: string where "SIGMOID = ''sigmoid''"
definition REVERSE_SIGMOID :: string where "REVERSE_SIGMOID = ''reverse_sigmoid''"
definition RIGHT_STEP :: string where "RIGHT_STEP = ''right_step''"
definition STEP :: string where "STEP = ''step''"
definition NO_TRANSFORMATION :: string where "NO_TRANSFORMATION = ''no_transformation''"

text \<open>
  The transformation functions of \<open>TransformationFactory\<close>. Each looks its parameters
  up first, in the source's order, and then maps its formula over the predictions.
\<close>

definition no_transformation :: transformation_function where
  "no_transformation predictions parameters = Inr (map Finite predictions)"

definition right_step_formula :: "real \<Rightarrow> pyval \<Rightarrow> error + pyfloat" where
  "right_step_formula value low =
     bind_err (num low) (\<lambda>low. if value \<ge> low then Inr 1 else Inr 0)"

definition right_step :: transformation_function where
  "right_step predictions parameters =
     bind_err (getitem parameters LOW) (\<lambda>low.
       map_err (\<lambda>value. right_step_formula value low) predictions)"

text \<open>
  The formula inside \<open>step\<close> (the source names it \<open>_right_step_formula\<close> again):
  the chained comparison \<open>low <= value <= high\<close> evaluates \<open>value <= high\<close>
  only when \<open>low <= value\<close> holds.
\<close>

definition step_formula :: "real \<Rightarrow> pyval \<Rightarrow> pyval \<Rightarrow> error + pyfloat" where
  "step_formula value low high =
     bind_err (num low) (\<lambda>low.
       if low \<le> value
       then bind_err (num high) (\<lambda>high. if value \<le> high then Inr 1 else Inr 0)
       else Inr 0)"

definition step :: transformation_function where
  "step predictions parameters =
     bind_err (getitem parameters LOW) (\<lambda>low.
     bind_err (getitem parameters HIGH) (\<lambda>high.
       map_err (\<lambda>value. step_formula value low high) predictions))"

text \<open>
  \<open>_exp\<close> inside \<open>sigmoid_transformation\<close>; nothing catches its exceptions. A
  string among \<open>low\<close>, \<open>high\<close> and \<open>k\<close> raises \<open>TypeError\<close> in the
  numerator, before the division by \<open>low - high\<close> is reached.
\<close>

definition sigmoid_exp :: "(real \<Rightarrow> bool) \<Rightarrow> real \<Rightarrow> pyval \<Rightarrow> pyval \<Rightarrow> pyval \<Rightarrow> error + pyfloat" where
  "sigmoid_exp ovf pred_val low high k =
     bind_err (num low) (\<lambda>low. bind_err (num high) (\<lambda>high. bind_err (num k) (\<lambda>k.
     bind_err
       (truediv
          (py_mul (py_mul (Finite 10) (Finite k))
             (py_sub (Finite pred_val) (py_mul (py_add (Finite low) (Finite high)) (Finite 0.5))))
          (py_sub (Finite low) (Finite high)))
       (\<lambda>x. pow10 ovf x))))"

definition sigmoid_transformation :: "(real \<Rightarrow> bool) \<Rightarrow> transformation_function" where
  "sigmoid_transformation ovf predictions parameters =
     bind_err (getitem parameters LOW) (\<lambda>low.
     bind_err (getitem parameters HIGH) (\<lambda>high.
     bind_err (getitem parameters K) (\<lambda>k.
       map_err (\<lambda>pred_val.
           bind_err (sigmoid_exp ovf pred_val low high k) (\<lambda>e.
             truediv (Finite 1) (py_add (Finite 1) e)))
         predictions)))"

text \<open>
  \<open>_reverse_sigmoid_formula\<close>: \<open>reverse_sigmoid_try\<close> is the body of its
  \<open>try\<close>, and the bare \<open>except\<close> turns every exception into 0, so that only
  whether the body raises matters, not which exception comes first.
\<close>

definition reverse_sigmoid_try :: "(real \<Rightarrow> bool) \<Rightarrow> real \<Rightarrow> pyval \<Rightarrow> pyval \<Rightarrow> pyval \<Rightarrow> error + pyfloat" where
  "reverse_sigmoid_try ovf value low high k =
     bind_err (num low) (\<lambda>low. bind_err (num high) (\<lambda>high. bind_err (num k) (\<lambda>k.
     bind_err (truediv (py_add (Finite high) (Finite low)) (Finite 2)) (\<lambda>m.
     bind_err
       (truediv (py_mul (py_mul (Finite k) (py_sub (Finite value) m)) (Finite 10))
          (py_sub (Finite high) (Finite low)))
       (\<lambda>x.
     bind_err (pow10 ovf x) (\<lambda>p.
       truediv (Finite 1) (py_add (Finite 1) p)))))))"

definition reverse_sigmoid_formula :: "(real \<Rightarrow> bool) \<Rightarrow> real \<Rightarrow> pyval \<Rightarrow> pyval \<Rightarrow> pyval \<Rightarrow> pyfloat" where
  "reverse_sigmoid_formula ovf value low high k =
     (case reverse_sigmoid_try ovf value low high k of Inr r \<Rightarrow> r | Inl e \<Rightarrow> 0)"

definition reverse_sigmoid_transformation :: "(real \<Rightarrow> bool) \<Rightarrow> transformation_function" where
  "reverse_sigmoid_transformation ovf predictions parameters =
     bind_err (getitem parameters LOW) (\<lambda>low.
     bind_err (getitem parameters HIGH) (\<lambda>high.
     bind_err (getitem parameters K) (\<lambda>k.
       Inr (map (\<lambda>pred_val. reverse_sigmoid_formula ovf pred_val low high k) predictions))))"

text \<open>
  \<open>_double_sigmoid_formula\<close>, always called with all six arguments, so that the
  default values of its coefficients are never used. \<open>pow10_scaled ovf coef x coef_div\<close>
  is the expression \<open>10 ** (coef * (x / coef_div))\<close>, which the body evaluates six times.
\<close>

definition pow10_scaled :: "(real \<Rightarrow> bool) \<Rightarrow> real \<Rightarrow> real \<Rightarrow> real \<Rightarrow> error + pyfloat" where
  "pow10_scaled ovf coef x coef_div =
     bind_err (truediv (Finite x) (Finite coef_div)) (\<lambda>q. pow10 ovf (py_mul (Finite coef) q))"

definition double_sigmoid_try ::
  "(real \<Rightarrow> bool) \<Rightarrow> real \<Rightarrow> pyval \<Rightarrow> pyval \<Rightarrow> pyval \<Rightarrow> pyval \<Rightarrow> pyval \<Rightarrow> error + pyfloat" where
  "double_sigmoid_try ovf value low high coef_div coef_si coef_se =
     bind_err (num low) (\<lambda>low. bind_err (num high) (\<lambda>high.
     bind_err (num coef_div) (\<lambda>coef_div.
     bind_err (num coef_si) (\<lambda>coef_si. bind_err (num coef_se) (\<lambda>coef_se.
     bind_err (pow10_scaled ovf coef_se value coef_div) (\<lambda>A.
     bind_err (pow10_scaled ovf coef_se value coef_div) (\<lambda>b1.
     bind_err (pow10_scaled ovf coef_se low coef_div) (\<lambda>b2.
     bind_err (pow10_scaled ovf coef_si value coef_div) (\<lambda>c1.
     bind_err (pow10_scaled ovf coef_si value coef_div) (\<lambda>c2.
     bind_err (pow10_scaled ovf coef_si high coef_div) (\<lambda>c3.
     bind_err (truediv c1 (py_add c2 c3)) (\<lambda>C.
     bind_err (truediv A (py_add b1 b2)) (\<lambda>AB.
       Inr (py_sub AB C))))))))))))))"

definition double_sigmoid_formula ::
  "(real \<Rightarrow> bool) \<Rightarrow> real \<Rightarrow> pyval \<Rightarrow> pyval \<Rightarrow> pyval \<Rightarrow> pyval \<Rightarrow> pyval \<Rightarrow> pyfloat" where
  "double_sigmoid_formula ovf value low high coef_div coef_si coef_se =
     (case double_sigmoid_try ovf value low high coef_div coef_si coef_se of
        Inr r \<Rightarrow> r
      | Inl e \<Rightarrow> 0)"

definition double_sigmoid :: "(real \<Rightarrow> bool) \<Rightarrow> transformation_function" where
  "double_sigmoid ovf predictions parameters =
     bind_err (getitem parameters LOW) (\<lambda>low.
     bind_err (getitem parameters HIGH) (\<lambda>high.
     bind_err (getitem parameters COEF_DIV) (\<lambda>coef_div.
     bind_err (getitem parameters COEF_SI) (\<lambda>coef_si.
     bind_err (getitem parameters COEF_SE) (\<lambda>coef_se.
       Inr (map (\<lambda>pred_val.
              double_sigmoid_formula ovf pred_val low high coef_div coef_si coef_se)
            predictions))))))"

text \<open>
  The registry built by the constructor, and the lookup of a transformation in it.
\<close>

definition default_transformation_function_registry ::
  "(real \<Rightarrow> bool) \<Rightarrow> (pyval \<rightharpoonup> transformation_function)" where
  "default_transformation_function_registry ovf =
     map_of
       [(Str SIGMOID, sigmoid_transformation ovf),
        (Str REVERSE_SIGMOID, reverse_sigmoid_transformation ovf),
        (Str DOUBLE_SIGMOID, double_sigmoid ovf),
        (Str NO_TRANSFORMATION, no_transformation),
        (Str RIGHT_STEP, right_step),
        (Str STEP, step)]"

definition get_transformation_function ::
  "(real \<Rightarrow> bool) \<Rightarrow> parameters \<Rightarrow> error + transformation_function" where
  "get_transformation_function ovf parameters =
     bind_err (getitem parameters TRANSFORMATION_TYPE) (\<lambda>transformation_type.
       getitem (default_transformation_function_registry ovf) transformation_type)"

section \<open>Properties of the tokenizer\<close>

subsection \<open>Splitting\<close>

lemma match_at_splits: "match_at r s = Some (m, post) \<Longrightarrow> s = m @ post \<and> m \<noteq> []"
proof (induction r s rule: match_at.induct)
  case (1 c cs)
  then obtain d where d: "dropWhile (\<lambda>x. x \<noteq> CHR '']'') cs = d # post"
    and m: "m = c # takeWhile (\<lambda>x. x \<noteq> CHR '']'') cs @ [d]"
    by (auto split: if_splits list.splits)
  have "cs = takeWhile (\<lambda>x. x \<noteq> CHR '']'') cs @ dropWhile (\<lambda>x. x \<noteq> CHR '']'') cs"
    by simp
  with d have "cs = takeWhile (\<lambda>x. x \<noteq> CHR '']'') cs @ d # post"
    by simp
  with m show ?case by simp
qed (auto split: if_splits)

lemma re_search_splits: "re_search r s = Some (pre, m, post) \<Longrightarrow> s = pre @ m @ post \<and> m \<noteq> []"
proof (induction s arbitrary: pre)
  case Nil
  then show ?case by simp
next
  case (Cons c cs)
  show ?case
  proof (cases "match_at r (c # cs)")
    case None
    with Cons show ?thesis
      by (fastforce split: option.splits)
  next
    case (Some a)
    with Cons.prems match_at_splits [of r "c # cs"] show ?thesis
      by (cases a) auto
  qed
qed

lemma split_loop_tokens: "split_loop f i xs tokens = tokens @ split_loop f i xs []"
proof (induction xs arbitrary: i tokens)
  case Nil
  then show ?case by simp
next
  case (Cons x xs)
  show ?case
    using Cons [of "Suc i" "tokens @ f x"] Cons [of "Suc i" "tokens @ [x]"]
      Cons [of "Suc i" "f x"] Cons [of "Suc i" "[x]"]
    by simp
qed

lemma split_loop_parity: "split_loop f (Suc (Suc i)) xs tokens = split_loop f i xs tokens"
  by (induction xs arbitrary: i tokens) simp_all

lemma split_by_unfold:
  "split_by s (r # rs) =
     (case re_search r s of
        None \<Rightarrow> split_by s rs
      | Some (pre, m, post) \<Rightarrow> split_by pre rs @ m # split_by post (r # rs))"
proof (cases "re_search r s")
  case None
  then show ?thesis
    by (simp add: re_split.simps [of r s])
next
  case (Some a)
  obtain pre m post where a: "a = (pre, m, post)"
    by (cases a) auto
  have "split_by s (r # rs) =
      split_loop (\<lambda>x. split_by x rs) (Suc (Suc 0)) (re_split r post) (split_by pre rs @ [m])"
    using Some a by (simp add: re_split.simps [of r s])
  also have "\<dots> = split_loop (\<lambda>x. split_by x rs) 0 (re_split r post) (split_by pre rs @ [m])"
    by (rule split_loop_parity)
  also have "\<dots> = (split_by pre rs @ [m]) @ split_by post (r # rs)"
    using split_loop_tokens [of _ 0 _ "split_by pre rs @ [m]"] by simp
  finally show ?thesis
    using Some a by simp
qed

lemma split_by_cases [case_names Nil None Some]:
  assumes "\<And>s. P s []"
    and "\<And>s r rs. re_search r s = None \<Longrightarrow> P s rs \<Longrightarrow> P s (r # rs)"
    and "\<And>s r rs pre m post. re_search r s = Some (pre, m, post) \<Longrightarrow>
           P pre rs \<Longrightarrow> P post (r # rs) \<Longrightarrow> P s (r # rs)"
  shows "P s rs"
proof (induction rs arbitrary: s)
  case Nil
  show ?case by (rule assms(1))
next
  case (Cons r rs)
  show ?case
  proof (induction s rule: measure_induct_rule [where f = length])
    case (less s)
    show ?case
    proof (cases "re_search r s")
      case None
      then show ?thesis using Cons by (rule assms(2))
    next
      case (Some a)
      obtain pre m post where a: "a = (pre, m, post)"
        by (cases a) auto
      with Some have "length post < length s"
        by (auto dest: re_search_shorter)
      then have "P post (r # rs)" by (rule less)
      with Some a Cons show ?thesis
        using assms(3) by blast
    qed
  qed
qed

lemma split_by_None: "re_search r s = None \<Longrightarrow> split_by s (r # rs) = split_by s rs"
  using split_by_unfold [of s r rs] by simp

lemma split_by_Some:
  "re_search r s = Some (pre, m, post) \<Longrightarrow>
     split_by s (r # rs) = split_by pre rs @ m # split_by post (r # rs)"
  using split_by_unfold [of s r rs] by simp

lemma concat_split_by: "concat (split_by s rs) = s"
proof (induction s rs rule: split_by_cases)
  case (Nil s)
  show ?case by (induction s) simp_all
next
  case (None s r rs)
  then show ?case by (simp only: split_by_None)
next
  case (Some s r rs pre m post)
  have "concat (split_by s (r # rs)) = pre @ m @ post"
    unfolding split_by_Some [OF Some.hyps] using Some.IH by simp
  also have "\<dots> = s"
    using Some.hyps re_search_splits by blast
  finally show ?case .
qed

lemma split_by_token: "t \<in> set (split_by s rs) \<Longrightarrow> t \<noteq> [] \<and> set t \<subseteq> set s"
proof (induction s rs rule: split_by_cases)
  case (Nil s)
  then show ?case by auto
next
  case (None s r rs)
  from None.prems have "t \<in> set (split_by s rs)"
    unfolding split_by_None [OF None.hyps] .
  then show ?case by (rule None.IH)
next
  case (Some s r rs pre m post)
  from Some.hyps have s: "s = pre @ m @ post" and m: "m \<noteq> []"
    using re_search_splits by blast+
  from Some.prems have "t \<in> set (split_by pre rs) \<or> t = m \<or> t \<in> set (split_by post (r # rs))"
    unfolding split_by_Some [OF Some.hyps] by auto
  with Some.IH s m show ?case by auto
qed

subsection \<open>Untokenizing\<close>

lemma untokenize_loop_eq:
  "untokenize_loop tokens smi =
     smi @ concat (filter (\<lambda>t. t \<noteq> ''^'') (takeWhile (\<lambda>t. t \<noteq> ''$'') tokens))"
  by (induction tokens arbitrary: smi) simp_all

lemma untokenize_loop_plain:
  "''^'' \<notin> set tokens \<Longrightarrow> ''$'' \<notin> set tokens \<Longrightarrow> untokenize_loop tokens smi = smi @ concat tokens"
  by (induction tokens arbitrary: smi) auto

subsection \<open>Bracketed groups\<close>

lemma re_search_Brackets_None: "CHR ''['' \<notin> set s \<Longrightarrow> re_search Brackets s = None"
  by (induction s) auto

lemma match_at_Brackets_group:
  "CHR '']'' \<notin> set body \<Longrightarrow>
     match_at Brackets (CHR ''['' # body @ CHR '']'' # post) = Some (CHR ''['' # body @ [CHR '']''], post)"
proof -
  assume b: "CHR '']'' \<notin> set body"
  then have "dropWhile (\<lambda>x. x \<noteq> CHR '']'') (body @ CHR '']'' # post) = CHR '']'' # post"
    by (induction body) auto
  moreover from b have "takeWhile (\<lambda>x. x \<noteq> CHR '']'') (body @ CHR '']'' # post) = body"
    by (induction body) auto
  ultimately show ?thesis by simp
qed

lemma re_search_Brackets_group:
  "CHR ''['' \<notin> set pre \<Longrightarrow> CHR '']'' \<notin> set body \<Longrightarrow>
     re_search Brackets (pre @ CHR ''['' # body @ CHR '']'' # post) =
       Some (pre, CHR ''['' # body @ [CHR '']''], post)"
proof (induction pre)
  case Nil
  then show ?case
    using match_at_Brackets_group [of body post] by simp
next
  case (Cons c pre)
  then have "match_at Brackets (c # pre @ CHR ''['' # body @ CHR '']'' # post) = None"
    by auto
  with Cons show ?case by simp
qed


lemma dropWhile_close:
  "dropWhile (\<lambda>x. x \<noteq> CHR '']'') cs = d # q \<Longrightarrow> CHR '']'' \<in> set cs"
proof -
  assume "dropWhile (\<lambda>x. x \<noteq> CHR '']'') cs = d # q"
  then have "dropWhile (\<lambda>x. x \<noteq> CHR '']'') cs \<noteq> []" by simp
  then show ?thesis
    using dropWhile_eq_Nil_conv [of "\<lambda>x. x \<noteq> CHR '']''" cs] by blast
qed

lemma match_at_Brackets_close:
  assumes "match_at Brackets s = Some (m, q)"
  shows "CHR '']'' \<in> set s"
proof (cases s)
  case Nil
  with assms show ?thesis by simp
next
  case (Cons c cs)
  with assms obtain d where "dropWhile (\<lambda>x. x \<noteq> CHR '']'') cs = d # q"
    by (auto split: if_splits list.splits)
  then have "CHR '']'' \<in> set cs" by (rule dropWhile_close)
  with Cons show ?thesis by simp
qed

lemma re_search_Brackets_close:
  "re_search Brackets s = Some (p, m, q) \<Longrightarrow> CHR '']'' \<in> set s"
proof (induction s arbitrary: p)
  case Nil
  then show ?case by simp
next
  case (Cons c cs)
  show ?case
  proof (cases "match_at Brackets (c # cs)")
    case None
    with Cons show ?thesis
      by (fastforce split: option.splits)
  next
    case (Some a)
    then show ?thesis
      using match_at_Brackets_close [of "c # cs"] by (cases a) auto
  qed
qed

lemma match_at_Brackets_append:
  assumes "match_at Brackets s = Some (m, q)"
  shows "match_at Brackets (s @ rest) = Some (m, q @ rest)"
proof (cases s)
  case Nil
  with assms show ?thesis by simp
next
  case (Cons c cs)
  with assms obtain d where c: "c = CHR ''[''"
    and d: "dropWhile (\<lambda>x. x \<noteq> CHR '']'') cs = d # q"
    and m: "m = c # takeWhile (\<lambda>x. x \<noteq> CHR '']'') cs @ [d]"
    by (auto split: if_splits list.splits)
  from d have ex: "CHR '']'' \<in> set cs"
    by (rule dropWhile_close)
  have "dropWhile (\<lambda>x. x \<noteq> CHR '']'') (cs @ rest) = dropWhile (\<lambda>x. x \<noteq> CHR '']'') cs @ rest"
    using ex by (induction cs) auto
  with d have "dropWhile (\<lambda>x. x \<noteq> CHR '']'') (cs @ rest) = (d # q) @ rest"
    by simp
  moreover have "takeWhile (\<lambda>x. x \<noteq> CHR '']'') (cs @ rest) = takeWhile (\<lambda>x. x \<noteq> CHR '']'') cs"
    using ex by (induction cs) auto
  ultimately show ?thesis
    using Cons c m by simp
qed

lemma re_search_Brackets_append:
  "re_search Brackets pre = Some (p, m, q) \<Longrightarrow>
     re_search Brackets (pre @ rest) = Some (p, m, q @ rest)"
proof (induction pre arbitrary: p)
  case Nil
  then show ?case by simp
next
  case (Cons c cs)
  show ?case
  proof (cases "match_at Brackets (c # cs)")
    case (Some a)
    obtain m' q' where a: "a = (m', q')" by (cases a) auto
    with Some have "match_at Brackets ((c # cs) @ rest) = Some (m', q' @ rest)"
      by (simp only: match_at_Brackets_append)
    with Some a Cons.prems show ?thesis by simp
  next
    case None
    with Cons.prems obtain p' where s: "re_search Brackets cs = Some (p', m, q)" and p: "p = c # p'"
      by (auto split: option.splits)
    from s have "CHR '']'' \<in> set cs"
      by (rule re_search_Brackets_close)
    then have "dropWhile (\<lambda>x. x \<noteq> CHR '']'') cs \<noteq> []"
      using dropWhile_eq_Nil_conv [of "\<lambda>x. x \<noteq> CHR '']''" cs] by blast
    with None have "c \<noteq> CHR ''[''"
      by (cases "dropWhile (\<lambda>x. x \<noteq> CHR '']'') cs") (simp_all split: if_splits)
    then have "match_at Brackets (c # cs @ rest) = None"
      by simp
    with Cons.IH [OF s] p show ?thesis by simp
  qed
qed

lemma re_split_not_Nil: "re_split r s \<noteq> []"
  by (subst re_split.simps) (auto split: option.splits)

lemma split_by_Brackets_group:
  "CHR ''['' \<notin> set (last (re_split Brackets pre)) \<Longrightarrow> CHR '']'' \<notin> set body \<Longrightarrow>
     split_by (pre @ CHR ''['' # body @ CHR '']'' # post) (Brackets # rs) =
       split_by pre (Brackets # rs) @ (CHR ''['' # body @ [CHR '']'']) # split_by post (Brackets # rs)"
proof (induction pre rule: measure_induct_rule [where f = length])
  case (less pre)
  show ?case
  proof (cases "re_search Brackets pre")
    case None
    then have "re_split Brackets pre = [pre]"
      by (simp add: re_split.simps [of Brackets pre])
    with less.prems have "CHR ''['' \<notin> set pre" by simp
    with less.prems have "re_search Brackets (pre @ CHR ''['' # body @ CHR '']'' # post) =
        Some (pre, CHR ''['' # body @ [CHR '']''], post)"
      using re_search_Brackets_group [of pre body post] by simp
    then have "split_by (pre @ CHR ''['' # body @ CHR '']'' # post) (Brackets # rs) =
        split_by pre rs @ (CHR ''['' # body @ [CHR '']'']) # split_by post (Brackets # rs)"
      by (rule split_by_Some)
    with None show ?thesis
      by (simp only: split_by_None)
  next
    case (Some a)
    obtain p m q where a: "a = (p, m, q)" by (cases a) auto
    with Some have s: "re_search Brackets pre = Some (p, m, q)" by simp
    then have len: "length q < length pre"
      by (rule re_search_shorter)
    from s have "re_split Brackets pre = p # m # re_split Brackets q"
      by (simp add: re_split.simps [of Brackets pre])
    then have "last (re_split Brackets pre) = last (re_split Brackets q)"
      by (simp add: re_split_not_Nil)
    with less.prems have "CHR ''['' \<notin> set (last (re_split Brackets q))" by simp
    with less.IH [OF len] less.prems
    have ih: "split_by (q @ CHR ''['' # body @ CHR '']'' # post) (Brackets # rs) =
        split_by q (Brackets # rs) @ (CHR ''['' # body @ [CHR '']'']) # split_by post (Brackets # rs)"
      by simp
    from s have "re_search Brackets (pre @ CHR ''['' # body @ CHR '']'' # post) =
        Some (p, m, q @ CHR ''['' # body @ CHR '']'' # post)"
      by (rule re_search_Brackets_append)
    then have "split_by (pre @ CHR ''['' # body @ CHR '']'' # post) (Brackets # rs) =
        split_by p rs @ m # split_by (q @ CHR ''['' # body @ CHR '']'' # post) (Brackets # rs)"
      by (rule split_by_Some)
    also have "\<dots> = (split_by p rs @ m # split_by q (Brackets # rs)) @
        (CHR ''['' # body @ [CHR '']'']) # split_by post (Brackets # rs)"
      by (simp only: ih append_assoc append_Cons)
    also have "split_by p rs @ m # split_by q (Brackets # rs) = split_by pre (Brackets # rs)"
      using split_by_Some [OF s, of rs] by simp
    finally show ?thesis .
  qed
qed

subsection \<open>Claims about the tokenizer\<close>

text \<open>
  Claim C1. For every string \<open>s\<close> with no \<open>^\<close> and no \<open>$\<close> character,
  untokenizing the tokens of \<open>s\<close> (without the begin and end tokens) gives \<open>s\<close> back:
  no character is dropped or duplicated.
\<close>

theorem untokenize_tokenize:
  "CHR ''^'' \<notin> set s \<Longrightarrow> CHR ''$'' \<notin> set s \<Longrightarrow> untokenize (tokenize s False) = s"
proof -
  assume a: "CHR ''^'' \<notin> set s" and b: "CHR ''$'' \<notin> set s"
  have "''^'' \<notin> set (split_by s REGEXP_ORDER)"
    using a split_by_token [of "''^''" s REGEXP_ORDER] by auto
  moreover have "''$'' \<notin> set (split_by s REGEXP_ORDER)"
    using b split_by_token [of "''$''" s REGEXP_ORDER] by auto
  ultimately have "untokenize_loop (split_by s REGEXP_ORDER) '''' = concat (split_by s REGEXP_ORDER)"
    by (simp add: untokenize_loop_plain)
  then show ?thesis
    by (simp add: untokenize_def tokenize_def concat_split_by)
qed

theorem untokenize_tokenize_witness:
  "CHR ''^'' \<notin> set ''C[NH2+]C%12Cl'' \<and> CHR ''$'' \<notin> set ''C[NH2+]C%12Cl'' \<and>
   untokenize (tokenize ''C[NH2+]C%12Cl'' False) = ''C[NH2+]C%12Cl''"
proof -
  have a: "CHR ''^'' \<notin> set ''C[NH2+]C%12Cl''" by simp
  have b: "CHR ''$'' \<notin> set ''C[NH2+]C%12Cl''" by simp
  show ?thesis
    using a b untokenize_tokenize [OF a b] by blast
qed

text \<open>
  Claim C5. A substring from a \<open>[\<close> to the next \<open>]\<close> is one token whatever is
  between them: when the text \<open>pre\<close> before the \<open>[\<close> leaves no \<open>[\<close> open (the
  last piece of its split on brackets has none) and \<open>body\<close> has no \<open>]\<close>, the tokens of
  \<open>pre [ body ] post\<close> are those of \<open>pre\<close>, the one token \<open>[ body ]\<close>, and those
  of \<open>post\<close>. For every pattern, the text it matches is emitted as it is, and only the
  text before the match is passed to the patterns of lower precedence. The examples:
  \<open>[NH2+]\<close> stays whole, and \<open>Cl\<close> and \<open>%12\<close> inside brackets are not split out.
\<close>

theorem tokenize_bracket_group:
  "(CHR ''['' \<notin> set (last (re_split Brackets pre)) \<and> CHR '']'' \<notin> set body \<longrightarrow>
      tokenize (pre @ ''['' @ body @ '']'' @ post) False =
        tokenize pre False @ [''['' @ body @ '']''] @ tokenize post False) \<and>
   (re_search r s = Some (pre', m, post') \<longrightarrow>
      split_by s (r # rs) = split_by pre' rs @ [m] @ split_by post' (r # rs)) \<and>
   tokenize ''C[NH2+]C'' False = [''C'', ''[NH2+]'', ''C''] \<and>
   tokenize ''[Cl]Cl[%12]%12'' False = [''[Cl]'', ''Cl'', ''[%12]'', ''%12'']"
proof (intro conjI impI)
  assume h: "CHR ''['' \<notin> set (last (re_split Brackets pre)) \<and> CHR '']'' \<notin> set body"
  then have "split_by (pre @ CHR ''['' # body @ CHR '']'' # post) (Brackets # [Two_ring_nums, Brcl]) =
      split_by pre (Brackets # [Two_ring_nums, Brcl]) @
        (CHR ''['' # body @ [CHR '']'']) # split_by post (Brackets # [Two_ring_nums, Brcl])"
    by (intro split_by_Brackets_group) simp_all
  then show "tokenize (pre @ ''['' @ body @ '']'' @ post) False =
        tokenize pre False @ [''['' @ body @ '']''] @ tokenize post False"
    by (simp only: tokenize_def REGEXP_ORDER_def Let_def if_False append_Cons append_Nil)
next
  assume "re_search r s = Some (pre', m, post')"
  then show "split_by s (r # rs) = split_by pre' rs @ [m] @ split_by post' (r # rs)"
    by (simp only: split_by_Some append_Cons append_Nil)
next
  show "tokenize ''C[NH2+]C'' False = [''C'', ''[NH2+]'', ''C'']"
    by code_simp
next
  show "tokenize ''[Cl]Cl[%12]%12'' False = [''[Cl]'', ''Cl'', ''[%12]'', ''%12'']"
    by code_simp
qed

theorem tokenize_bracket_group_witness:
  "CHR ''['' \<notin> set (last (re_split Brackets ''[N]C%12'')) \<and> CHR '']'' \<notin> set ''Cl%12[Br'' \<and>
   tokenize ''[N]C%12[Cl%12[Br]ClC'' False = [''[N]'', ''C'', ''%12'', ''[Cl%12[Br]'', ''Cl'', ''C''] \<and>
   re_search Brcl ''CClC'' = Some (''C'', ''Cl'', ''C'') \<and>
   split_by ''CClC'' [Brcl] = [''C'', ''Cl'', ''C'']"
proof -
  have l: "last (re_split Brackets ''[N]C%12'') = ''C%12''" by code_simp
  have a: "CHR ''['' \<notin> set (last (re_split Brackets ''[N]C%12'')) \<and> CHR '']'' \<notin> set ''Cl%12[Br''"
    unfolding l by simp
  have b: "re_search Brcl ''CClC'' = Some (''C'', ''Cl'', ''C'')" by simp
  have c: "tokenize ''[N]C%12'' False = [''[N]'', ''C'', ''%12'']" by code_simp
  have d: "tokenize ''ClC'' False = [''Cl'', ''C'']" by code_simp
  have e: "split_by ''C'' [] = [''C'']" by simp
  have f: "split_by ''C'' [Brcl] = [''C'']" by code_simp
  note t = tokenize_bracket_group [of "''[N]C%12''" "''Cl%12[Br''" "''ClC''" Brcl "''CClC''"
      "''C''" "''Cl''" "''C''" "[]"]
  from t a have "tokenize (''[N]C%12'' @ ''['' @ ''Cl%12[Br'' @ '']'' @ ''ClC'') False =
      tokenize ''[N]C%12'' False @ [''['' @ ''Cl%12[Br'' @ '']''] @ tokenize ''ClC'' False"
    by blast
  then have "tokenize ''[N]C%12[Cl%12[Br]ClC'' False =
      [''[N]'', ''C'', ''%12'', ''[Cl%12[Br]'', ''Cl'', ''C'']"
    unfolding c d by simp
  moreover from t b have "split_by ''CClC'' [Brcl] = split_by ''C'' [] @ [''Cl''] @ split_by ''C'' [Brcl]"
    by blast
  then have "split_by ''CClC'' [Brcl] = [''C'', ''Cl'', ''C'']"
    unfolding e f by simp
  ultimately show ?thesis using a b by blast
qed

text \<open>
  Claim C6. For every token list, \<open>untokenize\<close> concatenates, in order, the tokens
  before the first \<open>$\<close> token that are not \<open>^\<close>; with no \<open>^\<close> and no \<open>$\<close>
  token it concatenates all of them.
\<close>

theorem untokenize_concat:
  "untokenize tokens = concat (filter (\<lambda>t. t \<noteq> ''^'') (takeWhile (\<lambda>t. t \<noteq> ''$'') tokens)) \<and>
   (''^'' \<notin> set tokens \<and> ''$'' \<notin> set tokens \<longrightarrow> untokenize tokens = concat tokens)"
proof
  show "untokenize tokens = concat (filter (\<lambda>t. t \<noteq> ''^'') (takeWhile (\<lambda>t. t \<noteq> ''$'') tokens))"
    by (simp add: untokenize_def untokenize_loop_eq)
  show "''^'' \<notin> set tokens \<and> ''$'' \<notin> set tokens \<longrightarrow> untokenize tokens = concat tokens"
    by (simp add: untokenize_def untokenize_loop_plain)
qed

theorem untokenize_concat_witness:
  "''^'' \<notin> set [''C'', ''Cl''] \<and> ''$'' \<notin> set [''C'', ''Cl''] \<and> untokenize [''C'', ''Cl''] = ''CCl'' \<and>
   untokenize [''^'', ''C'', ''^'', ''Cl'', ''$'', ''N'', ''^''] = ''CCl''"
proof -
  have a: "''^'' \<notin> set [''C'', ''Cl''] \<and> ''$'' \<notin> set [''C'', ''Cl'']" by simp
  from a untokenize_concat [of "[''C'', ''Cl'']"] have "untokenize [''C'', ''Cl''] = ''CCl''"
    by simp
  moreover from untokenize_concat [of "[''^'', ''C'', ''^'', ''Cl'', ''$'', ''N'', ''^'']"]
  have "untokenize [''^'', ''C'', ''^'', ''Cl'', ''$'', ''N'', ''^''] = ''CCl''"
    by simp
  ultimately show ?thesis using a by blast
qed

text \<open>
  Claim C10. Every token of \<open>tokenize s False\<close> is a non-empty string: the empty pieces
  that splitting leaves around the matches give no token.
\<close>

theorem tokenize_tokens_nonempty: "\<forall>t \<in> set (tokenize s False). t \<noteq> []"
  using split_by_token [of _ s REGEXP_ORDER] by (auto simp: tokenize_def)

theorem tokenize_tokens_nonempty_witness:
  "''[N]'' \<in> set (tokenize ''[N][O]Cl'' False) \<and> ''[N]'' \<noteq> [] \<and>
   re_split Brackets ''[N][O]Cl'' = ['''', ''[N]'', '''', ''[O]'', ''Cl'']"
proof -
  have a: "''[N]'' \<in> set (tokenize ''[N][O]Cl'' False)" by code_simp
  have b: "re_split Brackets ''[N][O]Cl'' = ['''', ''[N]'', '''', ''[O]'', ''Cl'']" by code_simp
  from a tokenize_tokens_nonempty [of "''[N][O]Cl''"] have "''[N]'' \<noteq> []" by blast
  with a b show ?thesis by blast
qed

section \<open>Properties of the score transformations\<close>

subsection \<open>Evaluating the float operations\<close>

lemmas names = LOW_def HIGH_def K_def COEF_DIV_def COEF_SI_def COEF_SE_def TRANSFORMATION_TYPE_def
  DOUBLE_SIGMOID_def SIGMOID_def REVERSE_SIGMOID_def RIGHT_STEP_def STEP_def NO_TRANSFORMATION_def

lemma float_max_ge: "1000 \<le> float_max"
  by (simp add: float_max_def)

lemma float_tiny_le: "float_tiny \<le> 1 / 1000"
  by (simp add: float_tiny_def)

lemma float_tiny_pos: "0 < float_tiny"
  by (simp add: float_tiny_def)

lemma fl_zero: "fl 0 = Finite 0"
  using float_max_ge float_tiny_pos by (simp add: fl_def)

lemma fl_moderate: "1 / 1000 < \<bar>r\<bar> \<Longrightarrow> \<bar>r\<bar> \<le> 1000 \<Longrightarrow> fl r = Finite r"
  using float_max_ge float_tiny_le by (auto simp: fl_def)

lemma not_ovf_small: "x \<le> 2 \<Longrightarrow> \<not> float_pow_overflows x"
proof -
  assume "x \<le> 2"
  then have "(10::real) powr x \<le> 10 powr 2"
    by (intro powr_mono) simp_all
  then have "(10::real) powr x \<le> 1000" by simp
  with float_max_ge show ?thesis
    by (simp add: float_pow_overflows_def)
qed

lemma ovf_400: "float_pow_overflows 400"
  by (simp add: float_pow_overflows_def float_max_def)

lemma pow_underflow: "fl (10 powr (- 400)) = Finite 0"
proof -
  have "(10::real) powr (- 400) = 1 / 10 ^ 400"
    by (simp add: powr_minus field_simps)
  moreover have "(1::real) / 10 ^ 400 \<le> float_tiny"
    by (simp add: float_tiny_def field_simps)
  moreover have "(0::real) \<le> 1 / 10 ^ 400" by simp
  ultimately show ?thesis
    using float_max_ge by (simp add: fl_def)
qed

lemma fl_1000: "fl 1000 = Finite 1000"
  using float_max_ge float_tiny_le by (simp add: fl_def)
lemmas float_eval = fl_zero fl_moderate fl_1000 py_sub_def not_ovf_small ovf_400 pow_underflow
  zero_pyfloat_def one_pyfloat_def

subsection \<open>Lookups and the step functions\<close>

lemma map_err_Inr: "map_err (\<lambda>x. Inr (g x)) xs = Inr (map g xs)"
  by (induction xs) simp_all

lemma getitem_Some: "d key = Some v \<Longrightarrow> getitem d key = Inr v"
  by (simp add: getitem_def)

lemma getitem_None: "d key = None \<Longrightarrow> getitem d key = Inl KeyError"
  by (simp add: getitem_def)

lemma right_step_formula_Num:
  "right_step_formula value (Num low) = Inr (if value \<ge> low then 1 else 0)"
  by (simp add: right_step_formula_def)

lemma step_formula_Num:
  "step_formula value (Num low) (Num high) = Inr (if low \<le> value \<and> value \<le> high then 1 else 0)"
  by (simp add: step_formula_def)

lemma right_step_Num:
  "parameters ''low'' = Some (Num low) \<Longrightarrow>
     right_step predictions parameters = Inr (map (\<lambda>value. if value \<ge> low then 1 else 0) predictions)"
  by (simp add: right_step_def LOW_def getitem_Some right_step_formula_Num map_err_Inr)

lemma step_Num:
  "parameters ''low'' = Some (Num low) \<Longrightarrow> parameters ''high'' = Some (Num high) \<Longrightarrow>
     step predictions parameters =
       Inr (map (\<lambda>value. if low \<le> value \<and> value \<le> high then 1 else 0) predictions)"
  by (simp add: step_def LOW_def HIGH_def getitem_Some step_formula_Num map_err_Inr)

text \<open>
  Claim C7. For every list of scores, \<open>right_step\<close> with the number \<open>low\<close> maps each
  value to 1 if \<open>value \<ge> low\<close> and to 0 otherwise, and \<open>step\<close> with the numbers
  \<open>low\<close> and \<open>high\<close> maps each value to 1 if \<open>low \<le> value \<le> high\<close> and to 0
  otherwise; \<open>right_step\<close> of 0, 5, 10 with \<open>low = 5\<close> is 0, 1, 1 and \<open>step\<close> of
  0, 5, 10 with \<open>low = 4\<close>, \<open>high = 9\<close> is 0, 1, 0.
\<close>

theorem step_functions:
  "(parameters ''low'' = Some (Num low) \<longrightarrow>
      right_step predictions parameters =
        Inr (map (\<lambda>value. if value \<ge> low then 1 else 0) predictions)) \<and>
   (parameters ''low'' = Some (Num low) \<and> parameters ''high'' = Some (Num high) \<longrightarrow>
      step predictions parameters =
        Inr (map (\<lambda>value. if low \<le> value \<and> value \<le> high then 1 else 0) predictions)) \<and>
   right_step [0, 5, 10] (map_of [(''low'', Num 5)]) = Inr [0, 1, 1] \<and>
   step [0, 5, 10] (map_of [(''low'', Num 4), (''high'', Num 9)]) = Inr [0, 1, 0]"
proof (intro conjI impI)
  show "right_step [0, 5, 10] (map_of [(''low'', Num 5)]) = Inr [0, 1, 1]"
    by (simp add: right_step_Num)
  show "step [0, 5, 10] (map_of [(''low'', Num 4), (''high'', Num 9)]) = Inr [0, 1, 0]"
    by (simp add: step_Num)
qed (simp_all add: right_step_Num step_Num)

theorem step_functions_witness:
  "map_of [(''low'', Num 3), (''high'', Num 9)] ''low'' = Some (Num 3) \<and>
   map_of [(''low'', Num 3), (''high'', Num 9)] ''high'' = Some (Num 9) \<and>
   right_step [1, 3, 20] (map_of [(''low'', Num 3), (''high'', Num 9)]) = Inr [0, 1, 1] \<and>
   step [1, 3, 20] (map_of [(''low'', Num 3), (''high'', Num 9)]) = Inr [0, 1, 0]"
proof -
  have a: "map_of [(''low'', Num 3), (''high'', Num 9)] ''low'' = Some (Num 3)" by simp
  have b: "map_of [(''low'', Num 3), (''high'', Num 9)] ''high'' = Some (Num 9)" by simp
  note t = step_functions [of "map_of [(''low'', Num 3), (''high'', Num 9)]" 3 "[1, 3, 20]" 9]
  have c: "right_step [1, 3, 20] (map_of [(''low'', Num 3), (''high'', Num 9)]) = Inr [0, 1, 1]"
    using t [THEN conjunct1, THEN mp, OF a] by simp
  have d: "step [1, 3, 20] (map_of [(''low'', Num 3), (''high'', Num 9)]) = Inr [0, 1, 0]"
    using t [THEN conjunct2, THEN conjunct1, THEN mp, OF conjI [OF a b]] by simp
  show ?thesis
    by (intro conjI a b c d)
qed

subsection \<open>The registry\<close>

lemma registry_lookup:
  "default_transformation_function_registry ovf v =
     (if v = Str ''sigmoid'' then Some (sigmoid_transformation ovf)
      else if v = Str ''reverse_sigmoid'' then Some (reverse_sigmoid_transformation ovf)
      else if v = Str ''double_sigmoid'' then Some (double_sigmoid ovf)
      else if v = Str ''no_transformation'' then Some no_transformation
      else if v = Str ''right_step'' then Some right_step
      else if v = Str ''step'' then Some step
      else None)"
  by (simp add: default_transformation_function_registry_def names)

text \<open>
  Claim C4. \<open>get_transformation_function\<close> fails with \<open>KeyError\<close> when the parameters
  have no \<open>transformation_type\<close>, and when its value is not one of the six registered
  names; no default transformation is returned. A registered name gives its own entry of
  the registry.
\<close>

theorem get_transformation_function_KeyError:
  "(parameters ''transformation_type'' = None \<longrightarrow>
      get_transformation_function ovf parameters = Inl KeyError) \<and>
   (parameters ''transformation_type'' = Some v \<and>
    v \<notin> {Str ''sigmoid'', Str ''reverse_sigmoid'', Str ''double_sigmoid'',
          Str ''no_transformation'', Str ''right_step'', Str ''step''} \<longrightarrow>
      get_transformation_function ovf parameters = Inl KeyError) \<and>
   (parameters ''transformation_type'' = Some v \<and>
    v \<in> {Str ''sigmoid'', Str ''reverse_sigmoid'', Str ''double_sigmoid'',
          Str ''no_transformation'', Str ''right_step'', Str ''step''} \<longrightarrow>
      get_transformation_function ovf parameters =
        Inr (the (default_transformation_function_registry ovf v)) \<and>
      default_transformation_function_registry ovf v \<noteq> None) \<and>
   get_transformation_function ovf (map_of [(''transformation_type'', Str ''bogus'')]) = Inl KeyError"
proof (intro conjI impI)
  assume "parameters ''transformation_type'' = None"
  then show "get_transformation_function ovf parameters = Inl KeyError"
    by (simp add: get_transformation_function_def TRANSFORMATION_TYPE_def getitem_None)
next
  assume a: "parameters ''transformation_type'' = Some v \<and>
    v \<notin> {Str ''sigmoid'', Str ''reverse_sigmoid'', Str ''double_sigmoid'',
          Str ''no_transformation'', Str ''right_step'', Str ''step''}"
  then have "default_transformation_function_registry ovf v = None"
    by (simp add: registry_lookup)
  with a show "get_transformation_function ovf parameters = Inl KeyError"
    by (simp add: get_transformation_function_def TRANSFORMATION_TYPE_def getitem_Some getitem_None)
next
  assume a: "parameters ''transformation_type'' = Some v \<and>
    v \<in> {Str ''sigmoid'', Str ''reverse_sigmoid'', Str ''double_sigmoid'',
          Str ''no_transformation'', Str ''right_step'', Str ''step''}"
  then show r: "default_transformation_function_registry ovf v \<noteq> None"
    by (auto simp: registry_lookup)
  then obtain f where "default_transformation_function_registry ovf v = Some f"
    by blast
  with a show "get_transformation_function ovf parameters =
        Inr (the (default_transformation_function_registry ovf v))"
    by (simp add: get_transformation_function_def TRANSFORMATION_TYPE_def getitem_Some)
next
  show "get_transformation_function ovf (map_of [(''transformation_type'', Str ''bogus'')]) = Inl KeyError"
    by (simp add: get_transformation_function_def TRANSFORMATION_TYPE_def getitem_def registry_lookup)
qed

theorem get_transformation_function_KeyError_witness:
  "map_of [(''low'', Num 1)] ''transformation_type'' = None \<and>
   get_transformation_function float_pow_overflows (map_of [(''low'', Num 1)]) = Inl KeyError \<and>
   map_of [(''transformation_type'', Str ''Sigmoid'')] ''transformation_type'' = Some (Str ''Sigmoid'') \<and>
   get_transformation_function float_pow_overflows (map_of [(''transformation_type'', Str ''Sigmoid'')]) =
     Inl KeyError \<and>
   map_of [(''transformation_type'', Num 1)] ''transformation_type'' = Some (Num 1) \<and>
   get_transformation_function float_pow_overflows (map_of [(''transformation_type'', Num 1)]) =
     Inl KeyError \<and>
   get_transformation_function float_pow_overflows (map_of [(''transformation_type'', Str ''step'')]) =
     Inr step"
proof -
  have a: "map_of [(''low'', Num 1)] ''transformation_type'' = None" by simp
  have b: "map_of [(''transformation_type'', Str ''Sigmoid'')] ''transformation_type'' = Some (Str ''Sigmoid'') \<and>
      Str ''Sigmoid'' \<notin> {Str ''sigmoid'', Str ''reverse_sigmoid'', Str ''double_sigmoid'',
          Str ''no_transformation'', Str ''right_step'', Str ''step''}"
    by simp
  have c: "map_of [(''transformation_type'', Num 1)] ''transformation_type'' = Some (Num 1) \<and>
      Num 1 \<notin> {Str ''sigmoid'', Str ''reverse_sigmoid'', Str ''double_sigmoid'',
          Str ''no_transformation'', Str ''right_step'', Str ''step''}"
    by simp
  have d: "map_of [(''transformation_type'', Str ''step'')] ''transformation_type'' = Some (Str ''step'') \<and>
      Str ''step'' \<in> {Str ''sigmoid'', Str ''reverse_sigmoid'', Str ''double_sigmoid'',
          Str ''no_transformation'', Str ''right_step'', Str ''step''}"
    by simp
  have e: "the (default_transformation_function_registry float_pow_overflows (Str ''step'')) = step"
    by (simp add: registry_lookup)
  have 1: "get_transformation_function float_pow_overflows (map_of [(''low'', Num 1)]) = Inl KeyError"
    by (rule get_transformation_function_KeyError
          [of "map_of [(''low'', Num 1)]" float_pow_overflows, THEN conjunct1, THEN mp, OF a])
  have 2: "get_transformation_function float_pow_overflows
      (map_of [(''transformation_type'', Str ''Sigmoid'')]) = Inl KeyError"
    by (rule get_transformation_function_KeyError
          [of "map_of [(''transformation_type'', Str ''Sigmoid'')]" float_pow_overflows "Str ''Sigmoid''",
            THEN conjunct2, THEN conjunct1, THEN mp, OF b])
  have 3: "get_transformation_function float_pow_overflows
      (map_of [(''transformation_type'', Num 1)]) = Inl KeyError"
    by (rule get_transformation_function_KeyError
          [of "map_of [(''transformation_type'', Num 1)]" float_pow_overflows "Num 1",
            THEN conjunct2, THEN conjunct1, THEN mp, OF c])
  have 4: "get_transformation_function float_pow_overflows
      (map_of [(''transformation_type'', Str ''step'')]) = Inr step"
    using get_transformation_function_KeyError
      [of "map_of [(''transformation_type'', Str ''step'')]" float_pow_overflows "Str ''step''",
        THEN conjunct2, THEN conjunct2, THEN conjunct1, THEN mp, OF d, THEN conjunct1]
    unfolding e .
  show ?thesis
    by (intro conjI a b [THEN conjunct1] c [THEN conjunct1] 1 2 3 4)
qed

subsection \<open>Missing parameters\<close>

lemma bind_err_not_KeyError:
  "m \<noteq> Inl KeyError \<Longrightarrow> (\<And>x. f x \<noteq> Inl KeyError) \<Longrightarrow> bind_err m f \<noteq> Inl KeyError"
  by (cases m) auto

lemma map_err_not_KeyError:
  "(\<And>x. f x \<noteq> Inl KeyError) \<Longrightarrow> map_err f xs \<noteq> Inl KeyError"
proof (induction xs)
  case Nil
  show ?case by simp
next
  case (Cons x xs)
  have "\<And>y. bind_err (map_err f xs) (\<lambda>ys. Inr (y # ys)) \<noteq> Inl KeyError"
    using Cons by (intro bind_err_not_KeyError) simp_all
  with Cons.prems show ?case
    by (simp add: bind_err_not_KeyError)
qed

lemma num_not_KeyError: "num v \<noteq> Inl KeyError"
  by (cases v) simp_all

lemma truediv_not_KeyError: "truediv a b \<noteq> Inl KeyError"
  by (induction a b rule: truediv.induct) (auto split: pyfloat.splits)

lemma pow10_not_KeyError: "pow10 ovf x \<noteq> Inl KeyError"
  by (cases x) simp_all

lemma right_step_formula_not_KeyError: "right_step_formula value low \<noteq> Inl KeyError"
  by (cases low) (simp_all add: right_step_formula_def)

lemma step_formula_not_KeyError: "step_formula value low high \<noteq> Inl KeyError"
  by (cases low; cases high) (simp_all add: step_formula_def)

lemma sigmoid_exp_not_KeyError: "sigmoid_exp ovf pred_val low high k \<noteq> Inl KeyError"
  unfolding sigmoid_exp_def
  by (intro bind_err_not_KeyError num_not_KeyError truediv_not_KeyError pow10_not_KeyError)

lemma right_step_KeyError:
  "(right_step predictions parameters = Inl KeyError) = (parameters ''low'' = None)"
proof (cases "parameters ''low''")
  case None
  then show ?thesis
    by (simp add: right_step_def LOW_def getitem_None)
next
  case (Some low)
  then show ?thesis
    by (simp add: right_step_def LOW_def getitem_Some map_err_not_KeyError
        right_step_formula_not_KeyError)
qed

lemma step_KeyError:
  "(step predictions parameters = Inl KeyError) =
     (parameters ''low'' = None \<or> parameters ''high'' = None)"
proof (cases "parameters ''low''")
  case None
  then show ?thesis
    by (simp add: step_def LOW_def getitem_None)
next
  case low: (Some low)
  show ?thesis
  proof (cases "parameters ''high''")
    case None
    with low show ?thesis
      by (simp add: step_def LOW_def HIGH_def getitem_None getitem_Some)
  next
    case (Some high)
    with low show ?thesis
      by (simp add: step_def LOW_def HIGH_def getitem_Some map_err_not_KeyError
          step_formula_not_KeyError)
  qed
qed

lemma sigmoid_transformation_KeyError:
  "(sigmoid_transformation ovf predictions parameters = Inl KeyError) =
     (parameters ''low'' = None \<or> parameters ''high'' = None \<or> parameters ''k'' = None)"
proof -
  have e: "\<And>low high k. map_err (\<lambda>pred_val.
           bind_err (sigmoid_exp ovf pred_val low high k) (\<lambda>e.
             truediv (Finite 1) (py_add (Finite 1) e))) predictions \<noteq> Inl KeyError"
    by (intro map_err_not_KeyError bind_err_not_KeyError sigmoid_exp_not_KeyError
        truediv_not_KeyError)
  show ?thesis
    by (cases "parameters ''low''"; cases "parameters ''high''"; cases "parameters ''k''")
      (simp_all add: sigmoid_transformation_def LOW_def HIGH_def K_def getitem_def e)
qed

lemma reverse_sigmoid_transformation_KeyError:
  "(reverse_sigmoid_transformation ovf predictions parameters = Inl KeyError) =
     (parameters ''low'' = None \<or> parameters ''high'' = None \<or> parameters ''k'' = None)"
  by (cases "parameters ''low''"; cases "parameters ''high''"; cases "parameters ''k''")
    (simp_all add: reverse_sigmoid_transformation_def LOW_def HIGH_def K_def getitem_def)

lemma double_sigmoid_KeyError:
  "(double_sigmoid ovf predictions parameters = Inl KeyError) =
     (parameters ''low'' = None \<or> parameters ''high'' = None \<or> parameters ''coef_div'' = None \<or>
      parameters ''coef_si'' = None \<or> parameters ''coef_se'' = None)"
  by (cases "parameters ''low''"; cases "parameters ''high''"; cases "parameters ''coef_div''";
      cases "parameters ''coef_si''"; cases "parameters ''coef_se''")
    (simp_all add: double_sigmoid_def LOW_def HIGH_def COEF_DIV_def COEF_SI_def COEF_SE_def
      getitem_def)

lemma get_double_sigmoid:
  "parameters ''transformation_type'' = Some (Str ''double_sigmoid'') \<Longrightarrow>
     get_transformation_function ovf parameters = Inr (double_sigmoid ovf)"
  by (simp add: get_transformation_function_def TRANSFORMATION_TYPE_def getitem_Some registry_lookup)

text \<open>
  Claim C9, amended. A transformation function fails with \<open>KeyError\<close> exactly when the
  parameters lack one of the keys it reads: \<open>low\<close> for \<open>right_step\<close>, \<open>low\<close> and
  \<open>high\<close> for \<open>step\<close>, \<open>low\<close>, \<open>high\<close> and \<open>k\<close> for
  \<open>sigmoid_transformation\<close> and \<open>reverse_sigmoid_transformation\<close>, and \<open>low\<close>,
  \<open>high\<close>, \<open>coef_div\<close>, \<open>coef_si\<close> and \<open>coef_se\<close> for \<open>double_sigmoid\<close>,
  also when \<open>double_sigmoid\<close> is reached through the registry: the default coefficients
  of the inner formula are not used.
\<close>

theorem missing_parameter_KeyError:
  "(right_step predictions parameters = Inl KeyError \<longleftrightarrow> parameters ''low'' = None) \<and>
   (step predictions parameters = Inl KeyError \<longleftrightarrow>
      parameters ''low'' = None \<or> parameters ''high'' = None) \<and>
   (sigmoid_transformation ovf predictions parameters = Inl KeyError \<longleftrightarrow>
      parameters ''low'' = None \<or> parameters ''high'' = None \<or> parameters ''k'' = None) \<and>
   (reverse_sigmoid_transformation ovf predictions parameters = Inl KeyError \<longleftrightarrow>
      parameters ''low'' = None \<or> parameters ''high'' = None \<or> parameters ''k'' = None) \<and>
   (double_sigmoid ovf predictions parameters = Inl KeyError \<longleftrightarrow>
      parameters ''low'' = None \<or> parameters ''high'' = None \<or> parameters ''coef_div'' = None \<or>
      parameters ''coef_si'' = None \<or> parameters ''coef_se'' = None) \<and>
   (parameters ''transformation_type'' = Some (Str ''double_sigmoid'') \<and>
    (parameters ''coef_div'' = None \<or> parameters ''coef_si'' = None \<or> parameters ''coef_se'' = None) \<longrightarrow>
      bind_err (get_transformation_function ovf parameters) (\<lambda>f. f predictions parameters) =
        Inl KeyError)"
proof (intro conjI impI)
  assume a: "parameters ''transformation_type'' = Some (Str ''double_sigmoid'') \<and>
    (parameters ''coef_div'' = None \<or> parameters ''coef_si'' = None \<or> parameters ''coef_se'' = None)"
  then have "get_transformation_function ovf parameters = Inr (double_sigmoid ovf)"
    by (simp add: get_double_sigmoid)
  moreover from a have "double_sigmoid ovf predictions parameters = Inl KeyError"
    unfolding double_sigmoid_KeyError by (elim conjE disjE) simp_all
  ultimately show "bind_err (get_transformation_function ovf parameters) (\<lambda>f. f predictions parameters) =
        Inl KeyError"
    by simp
qed (rule right_step_KeyError step_KeyError sigmoid_transformation_KeyError
    reverse_sigmoid_transformation_KeyError double_sigmoid_KeyError)+

theorem missing_parameter_KeyError_witness:
  "map_of [(''transformation_type'', Str ''double_sigmoid''), (''high'', Num 1), (''coef_div'', Num 1),
      (''coef_si'', Num 1)] ''low'' = None \<and>
   map_of [(''transformation_type'', Str ''double_sigmoid''), (''high'', Num 1), (''coef_div'', Num 1),
      (''coef_si'', Num 1)] ''coef_se'' = None \<and>
   right_step [1] (map_of [(''transformation_type'', Str ''double_sigmoid''), (''high'', Num 1),
      (''coef_div'', Num 1), (''coef_si'', Num 1)]) = Inl KeyError \<and>
   step [1] (map_of [(''transformation_type'', Str ''double_sigmoid''), (''high'', Num 1),
      (''coef_div'', Num 1), (''coef_si'', Num 1)]) = Inl KeyError \<and>
   sigmoid_transformation float_pow_overflows [1] (map_of [(''transformation_type'', Str ''double_sigmoid''),
      (''high'', Num 1), (''coef_div'', Num 1), (''coef_si'', Num 1)]) = Inl KeyError \<and>
   reverse_sigmoid_transformation float_pow_overflows [1] (map_of [(''transformation_type'', Str ''double_sigmoid''),
      (''high'', Num 1), (''coef_div'', Num 1), (''coef_si'', Num 1)]) = Inl KeyError \<and>
   double_sigmoid float_pow_overflows [1] (map_of [(''transformation_type'', Str ''double_sigmoid''),
      (''high'', Num 1), (''coef_div'', Num 1), (''coef_si'', Num 1)]) = Inl KeyError \<and>
   bind_err (get_transformation_function float_pow_overflows
        (map_of [(''transformation_type'', Str ''double_sigmoid''), (''high'', Num 1),
          (''coef_div'', Num 1), (''coef_si'', Num 1)]))
      (\<lambda>f. f [1] (map_of [(''transformation_type'', Str ''double_sigmoid''), (''high'', Num 1),
          (''coef_div'', Num 1), (''coef_si'', Num 1)])) = Inl KeyError"
proof -
  define p where "p = map_of [(''transformation_type'', Str ''double_sigmoid''), (''high'', Num 1),
      (''coef_div'', Num 1), (''coef_si'', Num 1)]"
  have a: "p ''low'' = None" by (simp add: p_def)
  have b: "p ''coef_se'' = None" by (simp add: p_def)
  have c: "p ''transformation_type'' = Some (Str ''double_sigmoid'')" by (simp add: p_def)
  note t = missing_parameter_KeyError [of "[1]" p float_pow_overflows]
  have 1: "right_step [1] p = Inl KeyError"
    using t [THEN conjunct1] a by simp
  have 2: "step [1] p = Inl KeyError"
    using t [THEN conjunct2, THEN conjunct1] a by simp
  have 3: "sigmoid_transformation float_pow_overflows [1] p = Inl KeyError"
    using t [THEN conjunct2, THEN conjunct2, THEN conjunct1] a by simp
  have 4: "reverse_sigmoid_transformation float_pow_overflows [1] p = Inl KeyError"
    using t [THEN conjunct2, THEN conjunct2, THEN conjunct2, THEN conjunct1] a by simp
  have 5: "double_sigmoid float_pow_overflows [1] p = Inl KeyError"
    using t [THEN conjunct2, THEN conjunct2, THEN conjunct2, THEN conjunct2, THEN conjunct1] b
    by simp
  have 6: "bind_err (get_transformation_function float_pow_overflows p) (\<lambda>f. f [1] p) = Inl KeyError"
    using t [THEN conjunct2, THEN conjunct2, THEN conjunct2, THEN conjunct2, THEN conjunct2] b c
    by simp
  show ?thesis
    unfolding p_def [symmetric]
    by (intro conjI a b 1 2 3 4 5 6)
qed

text \<open>
  Claim C9 as it is stated fails: \<open>right_step\<close> does not read \<open>high\<close> and
  \<open>double_sigmoid\<close> does not read \<open>k\<close>, so that without them the calls return.
\<close>

theorem missing_parameter_KeyError_counterexample:
  "map_of [(''low'', Num 1)] ''high'' = None \<and>
   right_step [5] (map_of [(''low'', Num 1)]) = Inr [1] \<and>
   map_of [(''low'', Num 0), (''high'', Num 0), (''coef_div'', Num 1), (''coef_si'', Num 1),
      (''coef_se'', Num 1)] ''k'' = None \<and>
   double_sigmoid float_pow_overflows [0]
     (map_of [(''low'', Num 0), (''high'', Num 0), (''coef_div'', Num 1), (''coef_si'', Num 1),
        (''coef_se'', Num 1)]) = Inr [0]"
proof (intro conjI)
  show "right_step [5] (map_of [(''low'', Num 1)]) = Inr [1]"
    by (simp add: right_step_Num)
  show "double_sigmoid float_pow_overflows [0]
     (map_of [(''low'', Num 0), (''high'', Num 0), (''coef_div'', Num 1), (''coef_si'', Num 1),
        (''coef_se'', Num 1)]) = Inr [0]"
    by (simp add: double_sigmoid_def double_sigmoid_formula_def double_sigmoid_try_def
        pow10_scaled_def getitem_def names float_eval)
qed simp_all

subsection \<open>Arithmetic faults\<close>

text \<open>
  Claim C2. The claim is that each of the six transformation functions returns a value for
  every element and never raises. \<open>sigmoid_transformation\<close> has no \<open>try\<close> around its
  formula: with all its parameters present, \<open>low = high\<close> ends the whole call with
  \<open>ZeroDivisionError\<close>, and an exponent out of range ends it with \<open>OverflowError\<close>.
\<close>

theorem sigmoid_transformation_raises:
  "sigmoid_transformation ovf [1] (map_of [(''low'', Num 1), (''high'', Num 1), (''k'', Num 1)]) =
     Inl ZeroDivisionError \<and>
   sigmoid_transformation float_pow_overflows [81 / 2]
       (map_of [(''low'', Num 1), (''high'', Num 0), (''k'', Num 1)]) =
     Inl OverflowError"
proof
  have "py_sub (Finite 1) (Finite 1) = Finite 0"
    by (simp add: py_sub_def fl_zero)
  then show "sigmoid_transformation ovf [1] (map_of [(''low'', Num 1), (''high'', Num 1), (''k'', Num 1)]) =
     Inl ZeroDivisionError"
    by (simp add: sigmoid_transformation_def sigmoid_exp_def getitem_def names)
  have o: "float_pow_overflows 400"
    by (simp add: float_pow_overflows_def float_max_def)
  have "py_add (Finite 1) (Finite 0) = Finite 1"
    by (simp add: fl_moderate)
  moreover have "py_mul (Finite 1) (Finite 0.5) = Finite (1 / 2)"
    by (simp add: fl_moderate)
  moreover have "py_sub (Finite (81 / 2)) (Finite (1 / 2)) = Finite 40"
    by (simp add: py_sub_def fl_moderate)
  moreover have "py_mul (Finite 10) (Finite 1) = Finite 10"
    by (simp add: fl_moderate)
  moreover have "py_mul (Finite 10) (Finite 40) = Finite 400"
    by (simp add: fl_moderate)
  moreover have "py_sub (Finite 1) (Finite 0) = Finite 1"
    by (simp add: py_sub_def fl_moderate)
  moreover have "truediv (Finite 400) (Finite 1) = Inr (Finite 400)"
    by (simp add: fl_moderate)
  ultimately show "sigmoid_transformation float_pow_overflows [81 / 2]
       (map_of [(''low'', Num 1), (''high'', Num 0), (''k'', Num 1)]) = Inl OverflowError"
    using o by (simp add: sigmoid_transformation_def sigmoid_exp_def getitem_def names)
qed






















end
